theory Spec2Isabelle
  imports Complex_Main
begin

section \<open>JavaScript numbers, in exact arithmetic\<close>

text \<open>
  The calculator is one React component, \<^verbatim>\<open>src/pediatric-iwl-calculator.tsx\<close>. Its
  arithmetic is on JavaScript numbers, the binary64 values of IEEE 754. They are modelled
  at two levels. In this section a number is an exact real, or \<open>NaN\<close>, or one of the two
  infinities, and every comparison and every operation of the source has the result
  JavaScript gives it on these values when nothing is rounded: a decimal literal such as
  \<open>0.13\<close> is the real \<open>13/100\<close>, and no operation overflows or underflows. In the
  section on binary64 arithmetic below, every literal, every parsed string and every result
  of an operation is rounded to the nearest binary64 value, as the machine does; the
  properties that rounding, overflow or underflow can break are stated there. The sign of
  zero is in neither level: the program never divides by a variable, its comparisons and
  \<^verbatim>\<open>||\<close> treat both zeros alike, and \<open>toFixed\<close> prints both alike.
\<close>

datatype jsnum = NaN | Fin real | PInf | NInf

fun jadd :: "jsnum \<Rightarrow> jsnum \<Rightarrow> jsnum" where
  "jadd NaN _ = NaN"
| "jadd _ NaN = NaN"
| "jadd (Fin a) (Fin b) = Fin (a + b)"
| "jadd PInf NInf = NaN"
| "jadd NInf PInf = NaN"
| "jadd PInf _ = PInf"
| "jadd _ PInf = PInf"
| "jadd NInf _ = NInf"
| "jadd _ NInf = NInf"

fun jneg :: "jsnum \<Rightarrow> jsnum" where
  "jneg NaN = NaN"
| "jneg (Fin a) = Fin (- a)"
| "jneg PInf = NInf"
| "jneg NInf = PInf"

definition jsub :: "jsnum \<Rightarrow> jsnum \<Rightarrow> jsnum" where
  "jsub x y = jadd x (jneg y)"

fun jmul :: "jsnum \<Rightarrow> jsnum \<Rightarrow> jsnum" where
  "jmul NaN _ = NaN"
| "jmul _ NaN = NaN"
| "jmul (Fin a) (Fin b) = Fin (a * b)"
| "jmul (Fin a) PInf = (if a = 0 then NaN else if 0 < a then PInf else NInf)"
| "jmul (Fin a) NInf = (if a = 0 then NaN else if 0 < a then NInf else PInf)"
| "jmul PInf (Fin b) = (if b = 0 then NaN else if 0 < b then PInf else NInf)"
| "jmul NInf (Fin b) = (if b = 0 then NaN else if 0 < b then NInf else PInf)"
| "jmul PInf PInf = PInf"
| "jmul PInf NInf = NInf"
| "jmul NInf PInf = NInf"
| "jmul NInf NInf = PInf"

text \<open>Division; a zero divisor is read as \<open>+0\<close>. The program divides by the literals
  \<open>3600\<close> and \<open>24\<close> only.\<close>

fun jdiv :: "jsnum \<Rightarrow> jsnum \<Rightarrow> jsnum" where
  "jdiv NaN _ = NaN"
| "jdiv _ NaN = NaN"
| "jdiv (Fin a) (Fin b) =
     (if b = 0 then (if a = 0 then NaN else if 0 < a then PInf else NInf) else Fin (a / b))"
| "jdiv (Fin a) PInf = Fin 0"
| "jdiv (Fin a) NInf = Fin 0"
| "jdiv PInf (Fin b) = (if 0 \<le> b then PInf else NInf)"
| "jdiv NInf (Fin b) = (if 0 \<le> b then NInf else PInf)"
| "jdiv PInf PInf = NaN"
| "jdiv PInf NInf = NaN"
| "jdiv NInf PInf = NaN"
| "jdiv NInf NInf = NaN"

text \<open>\<^verbatim>\<open>Math.sqrt\<close>: \<open>NaN\<close> below zero.\<close>

fun Math_sqrt :: "jsnum \<Rightarrow> jsnum" where
  "Math_sqrt NaN = NaN"
| "Math_sqrt (Fin a) = (if a < 0 then NaN else Fin (sqrt a))"
| "Math_sqrt PInf = PInf"
| "Math_sqrt NInf = NaN"

text \<open>The comparison \<^verbatim>\<open>x > y\<close>: false as soon as one side is \<open>NaN\<close>.\<close>

fun jgt :: "jsnum \<Rightarrow> jsnum \<Rightarrow> bool" where
  "jgt NaN _ = False"
| "jgt _ NaN = False"
| "jgt (Fin a) (Fin b) = (b < a)"
| "jgt PInf PInf = False"
| "jgt PInf _ = True"
| "jgt _ PInf = False"
| "jgt NInf _ = False"
| "jgt _ NInf = True"

definition jlt :: "jsnum \<Rightarrow> jsnum \<Rightarrow> bool" where
  "jlt x y = jgt y x"

text \<open>The comparison \<^verbatim>\<open>x <= y\<close>, used to state that a range is well ordered.\<close>

fun jle :: "jsnum \<Rightarrow> jsnum \<Rightarrow> bool" where
  "jle NaN _ = False"
| "jle _ NaN = False"
| "jle (Fin a) (Fin b) = (a \<le> b)"
| "jle NInf _ = True"
| "jle _ PInf = True"
| "jle PInf _ = False"
| "jle _ NInf = False"

text \<open>\<^verbatim>\<open>x || y\<close> on numbers: \<open>x\<close> when it is truthy (neither \<open>NaN\<close> nor zero),
  \<open>y\<close> otherwise.\<close>

definition truthy :: "jsnum \<Rightarrow> bool" where
  "truthy x = (x \<noteq> NaN \<and> x \<noteq> Fin 0)"

definition jor :: "jsnum \<Rightarrow> jsnum \<Rightarrow> jsnum" where
  "jor x y = (if truthy x then x else y)"

subsection \<open>parseFloat\<close>

text \<open>
  \<^verbatim>\<open>parseFloat\<close> skips leading white space and reads the longest prefix that is a
  decimal literal: an optional sign, then \<^verbatim>\<open>Infinity\<close>, or digits with an optional
  fraction, or a point followed by digits, then an optional exponent. Without such a
  prefix the result is \<open>NaN\<close>. A string is a list of 8-bit characters.
\<close>

definition isWhiteSpace :: "char \<Rightarrow> bool" where
  "isWhiteSpace c =
     (c = CHR 0x09 \<or> c = CHR 0x0A \<or> c = CHR 0x0B \<or> c = CHR 0x0C \<or> c = CHR 0x0D \<or>
      c = CHR 0x20 \<or> c = CHR 0xA0)"

definition isDigit :: "char \<Rightarrow> bool" where
  "isDigit c = (48 \<le> (of_char c :: nat) \<and> (of_char c :: nat) \<le> 57)"

definition digitValue :: "char \<Rightarrow> nat" where
  "digitValue c = of_char c - 48"

definition digitsValue :: "string \<Rightarrow> nat" where
  "digitsValue ds = foldl (\<lambda>a c. 10 * a + digitValue c) 0 ds"

text \<open>The exponent part at the head of \<open>s\<close>, as a power of ten: \<open>e\<close> or \<open>E\<close>, an
  optional sign and at least one digit; \<open>1\<close> when there is none.\<close>

definition exponentPart :: "string \<Rightarrow> real" where
  "exponentPart s =
     (case s of
        [] \<Rightarrow> 1
      | c # r \<Rightarrow>
          if c = CHR ''e'' \<or> c = CHR ''E'' then
            (case r of
               [] \<Rightarrow> 1
             | d # r' \<Rightarrow>
                 if d = CHR ''-'' then
                   (if takeWhile isDigit r' = [] then 1
                    else 1 / 10 ^ digitsValue (takeWhile isDigit r'))
                 else if d = CHR ''+'' then
                   (if takeWhile isDigit r' = [] then 1
                    else 10 ^ digitsValue (takeWhile isDigit r'))
                 else
                   (if takeWhile isDigit r = [] then 1
                    else 10 ^ digitsValue (takeWhile isDigit r)))
          else 1)"

text \<open>An unsigned decimal literal at the head of \<open>s\<close>.\<close>

definition unsignedLiteral :: "string \<Rightarrow> jsnum" where
  "unsignedLiteral s =
     (if take 8 s = ''Infinity'' then PInf
      else
        let ip = takeWhile isDigit s; r1 = dropWhile isDigit s in
        (case r1 of
           [] \<Rightarrow> if ip = [] then NaN else Fin (real (digitsValue ip))
         | c # r2 \<Rightarrow>
             if c = CHR ''.'' then
               (let fp = takeWhile isDigit r2; r3 = dropWhile isDigit r2 in
                if ip = [] \<and> fp = [] then NaN
                else Fin ((real (digitsValue ip) + real (digitsValue fp) / 10 ^ length fp)
                          * exponentPart r3))
             else if ip = [] then NaN
             else Fin (real (digitsValue ip) * exponentPart r1)))"

definition parseFloat :: "string \<Rightarrow> jsnum" where
  "parseFloat str =
     (case dropWhile isWhiteSpace str of
        [] \<Rightarrow> NaN
      | c # r \<Rightarrow>
          if c = CHR ''-'' then jneg (unsignedLiteral r)
          else if c = CHR ''+'' then unsignedLiteral r
          else unsignedLiteral (c # r))"

subsection \<open>toFixed\<close>

text \<open>
  \<^verbatim>\<open>x.toFixed(f)\<close> returns a string. For a finite \<open>x\<close> below \<open>10^21\<close> in absolute
  value it is a decimal numeral with \<open>f\<close> digits after the point: a minus sign when
  \<open>x < 0\<close>, then the digits of the integer \<open>n\<close> nearest to \<open>|x| * 10^f\<close>, the larger one in
  a tie. \<open>Dec neg n f\<close> stands for that string. For every other \<open>x\<close> the result is the
  string \<^verbatim>\<open>String(x)\<close>, which \<open>ToStr x\<close> stands for (\<^verbatim>\<open>"NaN"\<close>, \<^verbatim>\<open>"Infinity"\<close>, or an
  exponent form).
\<close>

datatype numstr = Dec bool nat nat | ToStr jsnum

definition toFixed :: "jsnum \<Rightarrow> nat \<Rightarrow> numstr" where
  "toFixed x f =
     (case x of
        Fin r \<Rightarrow>
          if 10 ^ 21 \<le> \<bar>r\<bar> then ToStr x
          else Dec (r < 0) (nat \<lfloor>\<bar>r\<bar> * 10 ^ f + 1 / 2\<rfloor>) f
      | _ \<Rightarrow> ToStr x)"


section \<open>The calculator\<close>

subsection \<open>Normal respiratory rates\<close>

text \<open>The object \<^verbatim>\<open>{ min, max, age }\<close> that \<^verbatim>\<open>getNormalRR\<close> returns.\<close>

record rrBand =
  min_rr :: real
  max_rr :: real
  age :: string

definition getNormalRR :: "jsnum \<Rightarrow> rrBand" where
  "getNormalRR weightKg =
     (if jlt weightKg (Fin 3) then \<lparr>min_rr = 30, max_rr = 60, age = ''Newborn''\<rparr>
      else if jlt weightKg (Fin 5) then \<lparr>min_rr = 30, max_rr = 50, age = ''0-3 months''\<rparr>
      else if jlt weightKg (Fin 8) then \<lparr>min_rr = 25, max_rr = 40, age = ''3-6 months''\<rparr>
      else if jlt weightKg (Fin 12) then \<lparr>min_rr = 20, max_rr = 35, age = ''6-12 months''\<rparr>
      else if jlt weightKg (Fin 20) then \<lparr>min_rr = 20, max_rr = 30, age = ''1-3 years''\<rparr>
      else \<lparr>min_rr = 15, max_rr = 25, age = ''3+ years''\<rparr>)"

subsection \<open>calculateResults\<close>

text \<open>The \<^verbatim>\<open>additionalFactors\<close> state: one flag for each check box.\<close>

record additionalFactors =
  phototherapy :: bool
  radiantWarmer :: bool
  lowHumidity :: bool
  burns :: bool

text \<open>
  \<^verbatim>\<open>calculateResults\<close> reads five pieces of component state: the strings \<open>height\<close>,
  \<open>weight\<close>, \<open>temperature\<close> and \<open>respiratoryRate\<close> of the number inputs, and the
  flags. Its body is modelled in two steps. The first, \<open>calcLocals\<close>, is lines 31 to 67:
  it computes the local constants, collected in a record whose fields have their names.
\<close>

record locals =
  heightCm :: jsnum
  weightKg :: jsnum
  temp :: jsnum
  rr :: jsnum
  bsa :: jsnum
  baseIWL_low :: jsnum
  baseIWL_high :: jsnum
  weightBasedIWL_low :: jsnum
  weightBasedIWL_high :: jsnum
  feverAdjustment :: jsnum
  feverMultiplier :: jsnum
  normalRR :: rrBand
  rrAdjustment :: jsnum
  additionalAdjustment :: jsnum
  adjustedIWL_low :: jsnum
  adjustedIWL_high :: jsnum

definition calcLocals ::
  "string \<Rightarrow> string \<Rightarrow> string \<Rightarrow> string \<Rightarrow> additionalFactors \<Rightarrow> locals" where
  "calcLocals height weight temperature respiratoryRate fs =
     (let heightCm' = parseFloat height;
          weightKg' = parseFloat weight;
          temp' = parseFloat temperature;
          rr' = jor (parseFloat respiratoryRate) (Fin 0);
          bsa' = Math_sqrt (jdiv (jmul heightCm' weightKg') (Fin 3600));
          baseIWL_low' = jmul bsa' (Fin 400);
          baseIWL_high' = jmul bsa' (Fin 500);
          weightBasedIWL_low' = jmul weightKg' (Fin 15);
          weightBasedIWL_high' = jmul weightKg' (Fin 20);
          feverAdjustment' =
            (if jgt temp' (Fin 37) then jmul (jsub temp' (Fin 37)) (Fin 0.13) else Fin 0);
          feverMultiplier' = jadd (Fin 1) feverAdjustment';
          normalRR' = getNormalRR weightKg';
          rrAdjustment' =
            (if jgt rr' (Fin (max_rr normalRR'))
             then jmul (jmul (jsub rr' (Fin (max_rr normalRR'))) (Fin 2)) weightKg'
             else Fin 0);
          add0 = Fin 0;
          add1 = (if phototherapy fs then jadd add0 (jmul baseIWL_low' (Fin 0.2)) else add0);
          add2 = (if radiantWarmer fs then jadd add1 (jmul baseIWL_low' (Fin 0.3)) else add1);
          add3 = (if lowHumidity fs then jadd add2 (jmul baseIWL_low' (Fin 0.25)) else add2);
          additionalAdjustment' =
            (if burns fs then jadd add3 (jmul baseIWL_low' (Fin 0.5)) else add3);
          adjustedIWL_low' =
            jadd (jadd (jmul baseIWL_low' feverMultiplier') rrAdjustment') additionalAdjustment';
          adjustedIWL_high' =
            jadd (jadd (jmul baseIWL_high' feverMultiplier') rrAdjustment') additionalAdjustment'
      in \<lparr>heightCm = heightCm', weightKg = weightKg', temp = temp', rr = rr', bsa = bsa',
          baseIWL_low = baseIWL_low', baseIWL_high = baseIWL_high',
          weightBasedIWL_low = weightBasedIWL_low',
          weightBasedIWL_high = weightBasedIWL_high',
          feverAdjustment = feverAdjustment', feverMultiplier = feverMultiplier',
          normalRR = normalRR', rrAdjustment = rrAdjustment',
          additionalAdjustment = additionalAdjustment',
          adjustedIWL_low = adjustedIWL_low', adjustedIWL_high = adjustedIWL_high'\<rparr>)"

text \<open>
  The second step is lines 69 to 83: the object handed to \<^verbatim>\<open>setResults\<close>, whose
  numeric fields are the strings \<open>toFixed\<close> makes of the local constants.
\<close>

record results =
  res_bsa :: numstr
  res_baseIWL_low :: numstr
  res_baseIWL_high :: numstr
  res_weightBasedIWL_low :: numstr
  res_weightBasedIWL_high :: numstr
  res_adjustedIWL_low :: numstr
  res_adjustedIWL_high :: numstr
  res_hourlyRate_low :: numstr
  res_hourlyRate_high :: numstr
  res_feverAdjustment :: numstr
  res_rrAdjustment :: numstr
  res_normalRR :: rrBand
  res_additionalAdjustment :: numstr

definition makeResults :: "locals \<Rightarrow> results" where
  "makeResults c =
     \<lparr>res_bsa = toFixed (bsa c) 3,
      res_baseIWL_low = toFixed (baseIWL_low c) 0,
      res_baseIWL_high = toFixed (baseIWL_high c) 0,
      res_weightBasedIWL_low = toFixed (weightBasedIWL_low c) 0,
      res_weightBasedIWL_high = toFixed (weightBasedIWL_high c) 0,
      res_adjustedIWL_low = toFixed (adjustedIWL_low c) 0,
      res_adjustedIWL_high = toFixed (adjustedIWL_high c) 0,
      res_hourlyRate_low = toFixed (jdiv (adjustedIWL_low c) (Fin 24)) 1,
      res_hourlyRate_high = toFixed (jdiv (adjustedIWL_high c) (Fin 24)) 1,
      res_feverAdjustment = toFixed (jmul (feverAdjustment c) (Fin 100)) 1,
      res_rrAdjustment = toFixed (rrAdjustment c) 0,
      res_normalRR = normalRR c,
      res_additionalAdjustment = toFixed (additionalAdjustment c) 0\<rparr>"

text \<open>
  The whole function. \<open>None\<close> is the early \<^verbatim>\<open>return\<close> of line 29, taken when
  \<open>height\<close> or \<open>weight\<close> is falsy, which for a string means empty; \<^verbatim>\<open>setResults\<close> is
  not called then, and the \<^verbatim>\<open>results\<close> state stays as it was. \<open>Some r\<close> is the call
  \<^verbatim>\<open>setResults(r)\<close>.
\<close>

definition calculateResults ::
  "string \<Rightarrow> string \<Rightarrow> string \<Rightarrow> string \<Rightarrow> additionalFactors \<Rightarrow> results option" where
  "calculateResults height weight temperature respiratoryRate fs =
     (if height = [] \<or> weight = [] then None
      else Some (makeResults (calcLocals height weight temperature respiratoryRate fs)))"

section \<open>The specification's tables\<close>

text \<open>
  Definitions that follow the words of the specification, to compare the code with: the
  band table as an ordered list of pairs of an exclusive upper weight bound and a band,
  looked up first match; and the risk factors as an enumeration with a fraction each.
\<close>

definition spec_bandTable :: "(real \<times> rrBand) list" where
  "spec_bandTable =
     [(3, \<lparr>min_rr = 30, max_rr = 60, age = ''Newborn''\<rparr>),
      (5, \<lparr>min_rr = 30, max_rr = 50, age = ''0-3 months''\<rparr>),
      (8, \<lparr>min_rr = 25, max_rr = 40, age = ''3-6 months''\<rparr>),
      (12, \<lparr>min_rr = 20, max_rr = 35, age = ''6-12 months''\<rparr>),
      (20, \<lparr>min_rr = 20, max_rr = 30, age = ''1-3 years''\<rparr>)]"

definition spec_lastBand :: rrBand where
  "spec_lastBand = \<lparr>min_rr = 15, max_rr = 25, age = ''3+ years''\<rparr>"

fun spec_firstMatch :: "(real \<times> rrBand) list \<Rightarrow> rrBand \<Rightarrow> real \<Rightarrow> rrBand" where
  "spec_firstMatch [] d w = d"
| "spec_firstMatch ((u, b) # t) d w = (if w < u then b else spec_firstMatch t d w)"




text \<open>The initial \<^verbatim>\<open>additionalFactors\<close> state: no box checked.\<close>

definition noFactors :: additionalFactors where
  "noFactors =
     \<lparr>phototherapy = False, radiantWarmer = False, lowHumidity = False, burns = False\<rparr>"

section \<open>The calculator in binary64 arithmetic\<close>

text \<open>
  A JavaScript number is a binary64 value: the value of a decimal literal, the number
  \<^verbatim>\<open>parseFloat\<close> reads and the result of every operation are the binary64 value nearest
  to the exact one, the one with an even significand in a tie. This section gives the
  calculation with that rounding. A binary64 value is still a \<open>jsnum\<close>: a real that
  rounding leaves unchanged, \<open>NaN\<close> or an infinity.
\<close>

subsection \<open>Rounding to binary64\<close>

text \<open>The integer nearest to \<open>z\<close>, the even one in a tie.\<close>

definition roundHalfEven :: "real \<Rightarrow> int" where
  "roundHalfEven z =
     (let f = \<lfloor>z\<rfloor>; d = z - of_int f in
      if d < 1 / 2 then f else if 1 / 2 < d then f + 1 else if even f then f else f + 1)"

text \<open>The exponent of the spacing of the binary64 values around a positive real \<open>a\<close>:
  with 53 significant bits the values from \<open>2^k\<close> up to \<open>2^(k+1)\<close> are \<open>2^(k-52)\<close> apart,
  and the subnormal ones, below \<open>2^(-1022)\<close>, are \<open>2^(-1074)\<close> apart.\<close>

definition ulpExp :: "real \<Rightarrow> int" where
  "ulpExp a = max (\<lfloor>log 2 a\<rfloor> - 52) (- 1074)"

text \<open>A positive real rounded to a multiple of that spacing.\<close>

definition roundMag :: "real \<Rightarrow> real" where
  "roundMag a = (let u = 2 powi ulpExp a in of_int (roundHalfEven (a / u)) * u)"

text \<open>The binary64 value of a real: the rounded magnitude with the sign of the real, and an
  infinity when the rounded magnitude reaches \<open>2^1024\<close>. A magnitude of at most
  \<open>2^(-1075)\<close> becomes zero.\<close>

definition fl64 :: "real \<Rightarrow> jsnum" where
  "fl64 x =
     (if x = 0 then Fin 0
      else
        let v = roundMag \<bar>x\<bar>
        in if 2 ^ 1024 \<le> v then (if x < 0 then NInf else PInf)
           else Fin (if x < 0 then - v else v))"

definition round64 :: "jsnum \<Rightarrow> jsnum" where
  "round64 x = (case x of Fin r \<Rightarrow> fl64 r | _ \<Rightarrow> x)"

text \<open>The operations of the source: the exact result, rounded.\<close>

definition fadd :: "jsnum \<Rightarrow> jsnum \<Rightarrow> jsnum" where
  "fadd x y = round64 (jadd x y)"

definition fsub :: "jsnum \<Rightarrow> jsnum \<Rightarrow> jsnum" where
  "fsub x y = round64 (jsub x y)"

definition fmul :: "jsnum \<Rightarrow> jsnum \<Rightarrow> jsnum" where
  "fmul x y = round64 (jmul x y)"

definition fdiv :: "jsnum \<Rightarrow> jsnum \<Rightarrow> jsnum" where
  "fdiv x y = round64 (jdiv x y)"

definition fsqrt :: "jsnum \<Rightarrow> jsnum" where
  "fsqrt x = round64 (Math_sqrt x)"

text \<open>\<^verbatim>\<open>parseFloat\<close> returns the binary64 value of the literal it reads.\<close>

definition parseFloat64 :: "string \<Rightarrow> jsnum" where
  "parseFloat64 str = round64 (parseFloat str)"

subsection \<open>calculateResults, rounded\<close>

text \<open>
  The local constants of lines 31 to 67 again, statement by statement as in \<open>calcLocals\<close>,
  with the rounded operations. The literals \<open>0.13\<close>, \<open>0.2\<close>, \<open>0.3\<close>, \<open>0.25\<close> and \<open>0.5\<close>
  are the binary64 values nearest to them; the integer literals are binary64 values.
\<close>

definition calcLocals64 ::
  "string \<Rightarrow> string \<Rightarrow> string \<Rightarrow> string \<Rightarrow> additionalFactors \<Rightarrow> locals" where
  "calcLocals64 height weight temperature respiratoryRate fs =
     (let heightCm' = parseFloat64 height;
          weightKg' = parseFloat64 weight;
          temp' = parseFloat64 temperature;
          rr' = jor (parseFloat64 respiratoryRate) (Fin 0);
          bsa' = fsqrt (fdiv (fmul heightCm' weightKg') (Fin 3600));
          baseIWL_low' = fmul bsa' (Fin 400);
          baseIWL_high' = fmul bsa' (Fin 500);
          weightBasedIWL_low' = fmul weightKg' (Fin 15);
          weightBasedIWL_high' = fmul weightKg' (Fin 20);
          feverAdjustment' =
            (if jgt temp' (Fin 37) then fmul (fsub temp' (Fin 37)) (fl64 0.13) else Fin 0);
          feverMultiplier' = fadd (Fin 1) feverAdjustment';
          normalRR' = getNormalRR weightKg';
          rrAdjustment' =
            (if jgt rr' (Fin (max_rr normalRR'))
             then fmul (fmul (fsub rr' (Fin (max_rr normalRR'))) (Fin 2)) weightKg'
             else Fin 0);
          add0 = Fin 0;
          add1 = (if phototherapy fs then fadd add0 (fmul baseIWL_low' (fl64 0.2)) else add0);
          add2 = (if radiantWarmer fs then fadd add1 (fmul baseIWL_low' (fl64 0.3)) else add1);
          add3 = (if lowHumidity fs then fadd add2 (fmul baseIWL_low' (fl64 0.25)) else add2);
          additionalAdjustment' =
            (if burns fs then fadd add3 (fmul baseIWL_low' (fl64 0.5)) else add3);
          adjustedIWL_low' =
            fadd (fadd (fmul baseIWL_low' feverMultiplier') rrAdjustment') additionalAdjustment';
          adjustedIWL_high' =
            fadd (fadd (fmul baseIWL_high' feverMultiplier') rrAdjustment') additionalAdjustment'
      in \<lparr>heightCm = heightCm', weightKg = weightKg', temp = temp', rr = rr', bsa = bsa',
          baseIWL_low = baseIWL_low', baseIWL_high = baseIWL_high',
          weightBasedIWL_low = weightBasedIWL_low',
          weightBasedIWL_high = weightBasedIWL_high',
          feverAdjustment = feverAdjustment', feverMultiplier = feverMultiplier',
          normalRR = normalRR', rrAdjustment = rrAdjustment',
          additionalAdjustment = additionalAdjustment',
          adjustedIWL_low = adjustedIWL_low', adjustedIWL_high = adjustedIWL_high'\<rparr>)"

text \<open>The object given to \<^verbatim>\<open>setResults\<close> (lines 69 to 83), with the two operations made
  there rounded, and the guard of line 29.\<close>

definition makeResults64 :: "locals \<Rightarrow> results" where
  "makeResults64 c =
     \<lparr>res_bsa = toFixed (bsa c) 3,
      res_baseIWL_low = toFixed (baseIWL_low c) 0,
      res_baseIWL_high = toFixed (baseIWL_high c) 0,
      res_weightBasedIWL_low = toFixed (weightBasedIWL_low c) 0,
      res_weightBasedIWL_high = toFixed (weightBasedIWL_high c) 0,
      res_adjustedIWL_low = toFixed (adjustedIWL_low c) 0,
      res_adjustedIWL_high = toFixed (adjustedIWL_high c) 0,
      res_hourlyRate_low = toFixed (fdiv (adjustedIWL_low c) (Fin 24)) 1,
      res_hourlyRate_high = toFixed (fdiv (adjustedIWL_high c) (Fin 24)) 1,
      res_feverAdjustment = toFixed (fmul (feverAdjustment c) (Fin 100)) 1,
      res_rrAdjustment = toFixed (rrAdjustment c) 0,
      res_normalRR = normalRR c,
      res_additionalAdjustment = toFixed (additionalAdjustment c) 0\<rparr>"

definition calculateResults64 ::
  "string \<Rightarrow> string \<Rightarrow> string \<Rightarrow> string \<Rightarrow> additionalFactors \<Rightarrow> results option" where
  "calculateResults64 height weight temperature respiratoryRate fs =
     (if height = [] \<or> weight = [] then None
      else Some (makeResults64 (calcLocals64 height weight temperature respiratoryRate fs)))"

section \<open>The values of a number field\<close>

text \<open>
  The four text fields are \<^verbatim>\<open><input type="number">\<close> (lines 145, 157, 174 and 189). The
  state strings start as \<^verbatim>\<open>''\<close> (the temperature as \<^verbatim>\<open>'37'\<close>, lines 5 to 8) and are
  set from \<^verbatim>\<open>e.target.value\<close> of their field only (lines 147, 160, 177 and 191). The
  value of a number field is the empty string, when the field is empty or when its text
  is not a number, and a valid floating-point number otherwise: an optional minus sign,
  then digits with an optional fraction, or a point followed by digits, then an optional
  exponent, and nothing after it.
\<close>

definition validExponent :: "string \<Rightarrow> bool" where
  "validExponent r =
     (case r of
        [] \<Rightarrow> True
      | c # r' \<Rightarrow>
          (c = CHR ''e'' \<or> c = CHR ''E'') \<and>
          (let ds = (case r' of
                       [] \<Rightarrow> []
                     | d # t \<Rightarrow> if d = CHR ''-'' \<or> d = CHR ''+'' then t else r')
           in ds \<noteq> [] \<and> list_all isDigit ds))"

definition validUnsigned :: "string \<Rightarrow> bool" where
  "validUnsigned s =
     (let ip = takeWhile isDigit s; r1 = dropWhile isDigit s in
      case r1 of
        [] \<Rightarrow> ip \<noteq> []
      | c # r2 \<Rightarrow>
          if c = CHR ''.''
          then takeWhile isDigit r2 \<noteq> [] \<and> validExponent (dropWhile isDigit r2)
          else ip \<noteq> [] \<and> validExponent r1)"

definition validFloatingPointNumber :: "string \<Rightarrow> bool" where
  "validFloatingPointNumber s =
     (case s of
        [] \<Rightarrow> False
      | c # r \<Rightarrow> if c = CHR ''-'' then validUnsigned r else validUnsigned s)"

definition numberInputValue :: "string \<Rightarrow> bool" where
  "numberInputValue s = (s = [] \<or> validFloatingPointNumber s)"

section \<open>Properties\<close>

subsection \<open>Evaluation and the fields of calcLocals\<close>

lemmas pf_defs = parseFloat_def unsignedLiteral_def exponentPart_def isWhiteSpace_def
  isDigit_def digitValue_def digitsValue_def


lemma parseFloat_Nil: "parseFloat [] = NaN"
  by (simp add: parseFloat_def)


















lemma jmul_NaN_right: "jmul x NaN = NaN"
  by (cases x) simp_all


subsection \<open>Rounding by toFixed, and the order of the ranges\<close>










subsection \<open>Rounding to binary64\<close>

lemma rhe_close: "\<bar>of_int (roundHalfEven z) - z\<bar> \<le> 1 / 2"
  unfolding roundHalfEven_def Let_def by (auto simp: abs_if) linarith+

lemma rhe_of_int: "roundHalfEven (of_int n) = n"
  unfolding roundHalfEven_def Let_def by simp

lemma rhe_mono: "z \<le> z' \<Longrightarrow> roundHalfEven z \<le> roundHalfEven z'"
proof -
  assume le: "z \<le> z'"
  have fm: "\<lfloor>z\<rfloor> \<le> \<lfloor>z'\<rfloor>" using le by (rule floor_mono)
  show ?thesis
  proof (cases "\<lfloor>z\<rfloor> = \<lfloor>z'\<rfloor>")
    case True
    then show ?thesis
      using le unfolding roundHalfEven_def Let_def by auto
  next
    case False
    then have "\<lfloor>z\<rfloor> + 1 \<le> \<lfloor>z'\<rfloor>" using fm by simp
    moreover have "roundHalfEven z \<le> \<lfloor>z\<rfloor> + 1"
      unfolding roundHalfEven_def Let_def by auto
    moreover have "\<lfloor>z'\<rfloor> \<le> roundHalfEven z'"
      unfolding roundHalfEven_def Let_def by auto
    ultimately show ?thesis by linarith
  qed
qed

lemma powr_two_int: "(2::real) powr real_of_int n = 2 powi n"
  by (rule powr_real_of_int') simp_all

lemma floor_log2_iff:
  "0 < a \<Longrightarrow> (\<lfloor>log 2 a\<rfloor> = k) = (2 powi k \<le> a \<and> a < 2 powi (k + 1))"
  using floor_log_eq_powr_iff [of a 2 k] unfolding powr_two_int by simp

lemma floor_log2_bounds:
  assumes "0 < a"
  shows "2 powi \<lfloor>log 2 a\<rfloor> \<le> a" and "a < 2 powi (\<lfloor>log 2 a\<rfloor> + 1)"
  using floor_log2_iff [OF assms, of "\<lfloor>log 2 a\<rfloor>"] by simp_all

lemma floor_log2_eqI:
  assumes "0 < a" and "2 powi k \<le> a" and "a < 2 powi (k + 1)"
  shows "\<lfloor>log 2 a\<rfloor> = k"
  using floor_log2_iff [OF assms(1), of k] assms by simp

lemma floor_log2_mono: "0 < a \<Longrightarrow> a \<le> b \<Longrightarrow> \<lfloor>log 2 a\<rfloor> \<le> \<lfloor>log 2 b\<rfloor>"
  by (intro floor_mono) simp

lemma ulpExp_mono: "0 < a \<Longrightarrow> a \<le> b \<Longrightarrow> ulpExp a \<le> ulpExp b"
  using floor_log2_mono [of a b] by (simp add: ulpExp_def)

lemma ulpExp_ge: "- 1074 \<le> ulpExp a"
  by (simp add: ulpExp_def)

lemma ulp_pos: "0 < (2::real) powi k"
  by simp

lemma scaled_less:
  assumes "0 < a"
  shows "a / 2 powi ulpExp a < 2 ^ 53"
proof -
  have "a < 2 powi (\<lfloor>log 2 a\<rfloor> + 1)" using assms by (rule floor_log2_bounds)
  also have "(2::real) powi (\<lfloor>log 2 a\<rfloor> + 1) \<le> 2 powi (ulpExp a + 53)"
    by (intro power_int_increasing) (simp_all add: ulpExp_def)
  also have "(2::real) powi (ulpExp a + 53) = 2 powi ulpExp a * 2 ^ 53"
    by (simp add: power_int_add)
  finally show ?thesis
    using ulp_pos [of "ulpExp a"] by (simp add: field_simps)
qed

lemma scaled_ge:
  assumes "0 < a" and "- 1074 < ulpExp a"
  shows "2 ^ 52 \<le> a / 2 powi ulpExp a"
proof -
  have e: "ulpExp a = \<lfloor>log 2 a\<rfloor> - 52"
    using assms(2) by (simp add: ulpExp_def max_def split: if_splits)
  have "(2::real) powi ulpExp a * 2 ^ 52 = 2 powi (ulpExp a + 52)"
    by (simp add: power_int_add)
  also have "\<dots> = 2 powi \<lfloor>log 2 a\<rfloor>" by (simp add: e)
  also have "\<dots> \<le> a" using assms(1) by (rule floor_log2_bounds)
  finally show ?thesis
    using ulp_pos [of "ulpExp a"] by (simp add: field_simps)
qed

lemma roundMag_nonneg: "0 \<le> a \<Longrightarrow> 0 \<le> roundMag a"
proof -
  assume "0 \<le> a"
  then have "0 \<le> a / 2 powi ulpExp a" using ulp_pos [of "ulpExp a"] by simp
  then have "roundHalfEven 0 \<le> roundHalfEven (a / 2 powi ulpExp a)" by (rule rhe_mono)
  then have "0 \<le> roundHalfEven (a / 2 powi ulpExp a)"
    using rhe_of_int [of 0] by simp
  then show ?thesis
    using ulp_pos [of "ulpExp a"] by (simp add: roundMag_def Let_def)
qed

lemma roundMag_mono:
  assumes "0 < a" and "a \<le> b"
  shows "roundMag a \<le> roundMag b"
proof -
  have b: "0 < b" using assms by simp
  let ?ea = "ulpExp a" and ?eb = "ulpExp b"
  let ?na = "roundHalfEven (a / 2 powi ?ea)" and ?nb = "roundHalfEven (b / 2 powi ?eb)"
  have le: "?ea \<le> ?eb" using assms by (rule ulpExp_mono)
  show ?thesis
  proof (cases "?ea = ?eb")
    case True
    have "a / 2 powi ?ea \<le> b / 2 powi ?ea"
      using assms ulp_pos [of ?ea] by (simp add: divide_right_mono)
    then have "?na \<le> roundHalfEven (b / 2 powi ?ea)" by (rule rhe_mono)
    then show ?thesis
      using ulp_pos [of ?ea] True by (simp add: roundMag_def Let_def)
  next
    case False
    then have lt: "?ea + 1 \<le> ?eb" using le by simp
    then have nm: "- 1074 < ?eb" using ulpExp_ge [of a] by linarith
    have "a / 2 powi ?ea \<le> of_int (2 ^ 53)"
      using scaled_less [OF assms(1)] by simp
    then have "?na \<le> roundHalfEven (of_int (2 ^ 53))" by (rule rhe_mono)
    then have na: "?na \<le> 2 ^ 53" by (simp only: rhe_of_int)
    have "of_int (2 ^ 52) \<le> b / 2 powi ?eb"
      using scaled_ge [OF b nm] by simp
    then have "roundHalfEven (of_int (2 ^ 52)) \<le> ?nb" by (rule rhe_mono)
    then have nb: "2 ^ 52 \<le> ?nb" by (simp only: rhe_of_int)
    have "roundMag a \<le> 2 ^ 53 * 2 powi ?ea"
      using na ulp_pos [of ?ea]
      by (simp add: roundMag_def Let_def mult_right_mono flip: of_int_le_iff)
    also have "\<dots> = 2 ^ 52 * 2 powi (?ea + 1)"
      by (simp add: power_int_add)
    also have "\<dots> \<le> 2 ^ 52 * 2 powi ?eb"
      using lt by (intro mult_left_mono power_int_increasing) simp_all
    also have "\<dots> \<le> roundMag b"
      using nb ulp_pos [of ?eb]
      by (simp add: roundMag_def Let_def mult_right_mono flip: of_int_le_iff)
    finally show ?thesis .
  qed
qed

lemma floor_log2_less:
  assumes "0 < a" and "a < 2 powi k"
  shows "\<lfloor>log 2 a\<rfloor> < k"
proof (rule ccontr)
  assume "\<not> \<lfloor>log 2 a\<rfloor> < k"
  then have "(2::real) powi k \<le> 2 powi \<lfloor>log 2 a\<rfloor>"
    by (intro power_int_increasing) simp_all
  also have "\<dots> \<le> a" using assms(1) by (rule floor_log2_bounds)
  finally show False using assms(2) by simp
qed

lemma floor_log2_ge:
  assumes "0 < a" and "2 powi k \<le> a"
  shows "k \<le> \<lfloor>log 2 a\<rfloor>"
proof (rule ccontr)
  assume "\<not> k \<le> \<lfloor>log 2 a\<rfloor>"
  then have "(2::real) powi (\<lfloor>log 2 a\<rfloor> + 1) \<le> 2 powi k"
    by (intro power_int_increasing) simp_all
  moreover have "a < 2 powi (\<lfloor>log 2 a\<rfloor> + 1)" using assms(1) by (rule floor_log2_bounds)
  ultimately show False using assms(2) by simp
qed

lemma roundMag_zero: "roundMag 0 = 0"
  by (simp add: roundMag_def Let_def rhe_of_int [of 0, simplified])

lemma roundMag_exact:
  assumes "0 < n" and "n < 2 ^ 53" and "- 1074 \<le> e"
  shows "roundMag (of_int n * 2 powi e) = of_int n * 2 powi e"
proof -
  define a :: real where "a = of_int n * 2 powi e"
  define E where "E = ulpExp a"
  have pos: "0 < a" using assms(1) by (simp add: a_def)
  have "a < 2 ^ 53 * 2 powi e"
    using assms(2) by (simp add: a_def flip: of_int_less_iff)
  also have "\<dots> = 2 powi (53 + e)" by (simp add: power_int_add)
  finally have "\<lfloor>log 2 a\<rfloor> < 53 + e" using pos by (intro floor_log2_less)
  then have le: "E \<le> e" using assms(3) unfolding E_def ulpExp_def by linarith
  define k where "k = nat (e - E)"
  have e: "e = E + int k" using le by (simp add: k_def)
  have "(2::real) powi e = 2 powi E * 2 powi (int k)"
    by (subst e) (simp add: power_int_add)
  then have p: "(2::real) powi e = 2 powi E * 2 ^ k" by simp
  have "a / 2 powi E = of_int (n * 2 ^ k)"
    by (simp add: a_def p)
  then have "roundHalfEven (a / 2 powi E) = n * 2 ^ k"
    by (simp only: rhe_of_int)
  then have "roundMag a = of_int (n * 2 ^ k) * 2 powi E"
    by (simp add: roundMag_def Let_def E_def)
  also have "\<dots> = a" by (simp add: a_def p)
  finally show ?thesis by (simp add: a_def)
qed


lemma roundMag_int: "0 < n \<Longrightarrow> n < 2 ^ 53 \<Longrightarrow> roundMag (of_int n) = of_int n"
  using roundMag_exact [of n 0] by simp


lemma roundMag_ge_half:
  assumes "2 powi (- 1074) \<le> a"
  shows "a / 2 \<le> roundMag a"
proof -
  define E where "E = ulpExp a"
  define z where "z = a / 2 powi E"
  have pos: "0 < a" using assms ulp_pos [of "- 1074"] by linarith
  have z1: "1 \<le> z"
  proof (cases "E = - 1074")
    case True
    then show ?thesis using assms by (simp add: z_def field_simps)
  next
    case False
    then have "- 1074 < ulpExp a" using ulpExp_ge [of a] by (simp add: E_def)
    then have "2 ^ 52 \<le> z" using pos unfolding z_def E_def by (intro scaled_ge)
    moreover have "(1::real) \<le> 2 ^ 52" by simp
    ultimately show ?thesis by linarith
  qed
  have "z - 1 / 2 \<le> of_int (roundHalfEven z)"
    using rhe_close [of z] by linarith
  then have "z / 2 \<le> of_int (roundHalfEven z)" using z1 by linarith
  then have "z / 2 * 2 powi E \<le> of_int (roundHalfEven z) * 2 powi E"
    by (intro mult_right_mono) simp_all
  moreover have "z / 2 * 2 powi E = a / 2" by (simp add: z_def)
  ultimately show ?thesis by (simp add: roundMag_def Let_def z_def E_def)
qed

lemma roundMag_small:
  assumes "0 \<le> a" and "a < 2 powi (- 1075)"
  shows "roundMag a = 0"
proof (cases "a = 0")
  case True
  then show ?thesis by (simp add: roundMag_zero)
next
  case False
  then have pos: "0 < a" using assms(1) by simp
  have "\<lfloor>log 2 a\<rfloor> < - 1075" using pos assms(2) by (rule floor_log2_less)
  then have E: "ulpExp a = - 1074" unfolding ulpExp_def by linarith
  have "a * 2 < 2 powi (- 1075) * 2" using assms(2) by simp
  also have "(2::real) powi (- 1075) * 2 = 2 powi (- 1074)"
    using power_int_add_1 [of "2::real" "- 1075"] by simp
  finally have h: "a / 2 powi (- 1074) < 1 / 2"
    by (simp add: field_simps)
  have z: "0 \<le> a / 2 powi (- 1074)" using pos by simp
  have "\<lfloor>a / 2 powi (- 1074)\<rfloor> = 0"
    using h z by (intro floor_unique) simp_all
  then have "roundHalfEven (a / 2 powi (- 1074)) = 0"
    using h unfolding roundHalfEven_def Let_def by simp
  then show ?thesis by (simp add: roundMag_def Let_def E)
qed


lemma fl64_zero: "fl64 0 = Fin 0"
  by (simp add: fl64_def)

lemma fl64_pos:
  "0 < x \<Longrightarrow> fl64 x = (if 2 ^ 1024 \<le> roundMag x then PInf else Fin (roundMag x))"
  by (simp add: fl64_def Let_def)

lemma fl64_neg:
  "x < 0 \<Longrightarrow> fl64 x = (if 2 ^ 1024 \<le> roundMag (- x) then NInf else Fin (- roundMag (- x)))"
  by (simp add: fl64_def Let_def)

lemma fl64_not_NaN: "fl64 x \<noteq> NaN"
  by (simp add: fl64_def Let_def)

lemma fl64_nonneg_cases:
  assumes "0 \<le> x"
  shows "fl64 x = PInf \<or> (\<exists>y. fl64 x = Fin y \<and> 0 \<le> y \<and> y < 2 ^ 1024)"
proof (cases "x = 0")
  case True
  then show ?thesis by (simp add: fl64_zero)
next
  case False
  then have "0 < x" using assms by simp
  then show ?thesis
    using roundMag_nonneg [of x] by (simp add: fl64_pos)
qed

lemma fl64_mono:
  assumes "x \<le> y"
  shows "jle (fl64 x) (fl64 y)"
proof -
  consider (nn) "x < 0" "y < 0" | (nz) "x < 0" "y = 0" | (np) "x < 0" "0 < y"
    | (zz) "x = 0" "y = 0" | (zp) "x = 0" "0 < y" | (pp) "0 < x" "0 < y"
    using assms by linarith
  then show ?thesis
  proof cases
    case nn
    then have "roundMag (- y) \<le> roundMag (- x)"
      using assms by (intro roundMag_mono) simp_all
    then show ?thesis using nn by (simp add: fl64_neg)
  next
    case nz
    then show ?thesis using roundMag_nonneg [of "- x"] by (simp add: fl64_neg fl64_zero)
  next
    case np
    then show ?thesis
      using roundMag_nonneg [of "- x"] roundMag_nonneg [of y] by (simp add: fl64_neg fl64_pos)
  next
    case zz
    then show ?thesis by (simp add: fl64_zero)
  next
    case zp
    then show ?thesis using roundMag_nonneg [of y] by (simp add: fl64_zero fl64_pos)
  next
    case pp
    then have "roundMag x \<le> roundMag y"
      using assms by (intro roundMag_mono)
    then show ?thesis using pp by (simp add: fl64_pos)
  qed
qed

lemma fl64_exact:
  assumes "0 < n" and "n < 2 ^ 53" and "- 1074 \<le> e" and "of_int n * 2 powi e < (2::real) ^ 1024"
  shows "fl64 (of_int n * 2 powi e) = Fin (of_int n * 2 powi e)"
  using assms by (simp add: fl64_pos roundMag_exact)

lemma fl64_int:
  assumes "0 \<le> n" and "n < 2 ^ 53"
  shows "fl64 (of_int n) = Fin (of_int n)"
proof (cases "n = 0")
  case True
  then show ?thesis by (simp add: fl64_zero)
next
  case False
  then have n: "0 < n" using assms by simp
  have "(of_int n :: real) < of_int (2 ^ 53)" using assms(2) by (simp only: of_int_less_iff)
  then have "(of_int n :: real) < 2 ^ 1024"
    by (rule less_trans) simp
  then show ?thesis
    using fl64_exact [OF n assms(2), of 0] by simp
qed

lemma fl64_pow2:
  assumes "- 1074 \<le> e" and "e < 1024"
  shows "fl64 (2 powi e) = Fin (2 powi e)"
proof -
  have "(2::real) powi e < 2 powi 1024"
    using assms(2) by (intro power_int_strict_increasing) simp_all
  then show ?thesis
    using fl64_exact [of 1 e] assms(1) by simp
qed



lemma fl64_ge_half:
  assumes "2 powi (- 1074) \<le> x"
  shows "fl64 x = PInf \<or> (\<exists>y. fl64 x = Fin y \<and> x / 2 \<le> y)"
proof -
  have "0 < x" using assms ulp_pos [of "- 1074"] by linarith
  then show ?thesis
    using roundMag_ge_half [OF assms] by (simp add: fl64_pos)
qed

lemma fl64_underflow:
  assumes "0 \<le> x" and "x < 2 powi (- 1075)"
  shows "fl64 x = Fin 0"
proof (cases "x = 0")
  case True
  then show ?thesis by (simp add: fl64_zero)
next
  case False
  then have "0 < x" using assms by simp
  then show ?thesis
    using roundMag_small [OF assms] by (simp add: fl64_pos)
qed


text \<open>A bound by a binary64 value carries over to the rounded number.\<close>

lemma fl64_le:
  assumes "0 \<le> x" and "x \<le> t" and "fl64 t = Fin t"
  shows "\<exists>y. fl64 x = Fin y \<and> 0 \<le> y \<and> y \<le> t"
proof -
  have "jle (fl64 x) (Fin t)"
    using fl64_mono [OF assms(2)] by (simp add: assms(3))
  then show ?thesis
    using fl64_nonneg_cases [OF assms(1)] by auto
qed


lemma round64_simps:
  "round64 NaN = NaN" "round64 PInf = PInf" "round64 NInf = NInf" "round64 (Fin r) = fl64 r"
  by (simp_all add: round64_def)

lemma round64_NaN_iff: "(round64 x = NaN) = (x = NaN)"
  by (cases x) (simp_all add: round64_simps fl64_not_NaN)

lemma fl64_num: "numeral k < (2::int) ^ 53 \<Longrightarrow> fl64 (numeral k) = Fin (numeral k)"
  using fl64_int [of "numeral k"] by simp

lemma roundMag_eval:
  assumes "0 < x" and "2 powi k \<le> x" and "x < 2 powi (k + 1)"
  shows "roundMag x = of_int (roundHalfEven (x / 2 powi max (k - 52) (- 1074)))
            * 2 powi max (k - 52) (- 1074)"
  using floor_log2_eqI [OF assms] by (simp add: roundMag_def ulpExp_def Let_def)

lemma fl64_tie_down: "fl64 9999999999999965 = Fin 9999999999999964"
proof -
  have r: "roundHalfEven (9999999999999965 / 2) = 4999999999999982"
    by (simp add: roundHalfEven_def Let_def)
  have "roundMag 9999999999999965 = 9999999999999964"
    using roundMag_eval [of 9999999999999965 53] by (simp add: r)
  then show ?thesis by (simp add: fl64_pos)
qed

lemma fl64_tie_up: "fl64 9999999999999963 = Fin 9999999999999964"
proof -
  have r: "roundHalfEven (9999999999999963 / 2) = 4999999999999982"
    by (simp add: roundHalfEven_def Let_def)
  have "roundMag 9999999999999963 = 9999999999999964"
    using roundMag_eval [of 9999999999999963 53] by (simp add: r)
  then show ?thesis by (simp add: fl64_pos)
qed




subsection \<open>The fields of calcLocals64\<close>

lemma calcLocals64_inputs:
  "heightCm (calcLocals64 H W T R F) = parseFloat64 H"
  "weightKg (calcLocals64 H W T R F) = parseFloat64 W"
  "temp (calcLocals64 H W T R F) = parseFloat64 T"
  "rr (calcLocals64 H W T R F) = jor (parseFloat64 R) (Fin 0)"
  by (simp_all add: calcLocals64_def Let_def)

lemma calcLocals64_bsa:
  "bsa (calcLocals64 H W T R F) =
     fsqrt (fdiv (fmul (parseFloat64 H) (parseFloat64 W)) (Fin 3600))"
  by (simp add: calcLocals64_def Let_def)


lemma calcLocals64_weightBased:
  "weightBasedIWL_low (calcLocals64 H W T R F) = fmul (parseFloat64 W) (Fin 15)"
  "weightBasedIWL_high (calcLocals64 H W T R F) = fmul (parseFloat64 W) (Fin 20)"
  by (simp_all add: calcLocals64_def Let_def)

lemma calcLocals64_fever:
  "feverAdjustment (calcLocals64 H W T R F) =
     (if jgt (parseFloat64 T) (Fin 37)
      then fmul (fsub (parseFloat64 T) (Fin 37)) (fl64 0.13) else Fin 0)"
  "feverMultiplier (calcLocals64 H W T R F) =
     fadd (Fin 1) (feverAdjustment (calcLocals64 H W T R F))"
  by (simp_all add: calcLocals64_def Let_def)

lemma calcLocals64_normalRR:
  "normalRR (calcLocals64 H W T R F) = getNormalRR (parseFloat64 W)"
  by (simp add: calcLocals64_def Let_def)



lemma calcLocals64_adjusted:
  "adjustedIWL_low (calcLocals64 H W T R F) =
     fadd (fadd (fmul (baseIWL_low (calcLocals64 H W T R F))
                   (feverMultiplier (calcLocals64 H W T R F)))
             (rrAdjustment (calcLocals64 H W T R F)))
       (additionalAdjustment (calcLocals64 H W T R F))"
  "adjustedIWL_high (calcLocals64 H W T R F) =
     fadd (fadd (fmul (baseIWL_high (calcLocals64 H W T R F))
                   (feverMultiplier (calcLocals64 H W T R F)))
             (rrAdjustment (calcLocals64 H W T R F)))
       (additionalAdjustment (calcLocals64 H W T R F))"
  by (simp_all add: calcLocals64_def Let_def)

lemma calculateResults64_Some:
  "H \<noteq> [] \<Longrightarrow> W \<noteq> [] \<Longrightarrow>
   calculateResults64 H W T R F = Some (makeResults64 (calcLocals64 H W T R F))"
  by (simp add: calculateResults64_def)

lemma parseFloat64_Fin_nonempty: "parseFloat64 s = Fin x \<Longrightarrow> s \<noteq> []"
  by (auto simp add: parseFloat64_def parseFloat_Nil round64_simps)

text \<open>The surface area from a product that is not negative: never negative, never \<open>NaN\<close>.\<close>

lemma bsa64_nonneg:
  assumes "0 \<le> p"
  shows "jle (Fin 0) (fsqrt (fdiv (fl64 p) (Fin 3600)))"
proof -
  have q: "fdiv (fl64 p) (Fin 3600) = PInf
      \<or> (\<exists>z. fdiv (fl64 p) (Fin 3600) = Fin z \<and> 0 \<le> z)"
    using fl64_nonneg_cases [OF assms]
  proof (elim disjE exE conjE)
    assume "fl64 p = PInf"
    then show ?thesis by (simp add: fdiv_def round64_simps)
  next
    fix y assume y: "fl64 p = Fin y" "0 \<le> y"
    then have "fdiv (fl64 p) (Fin 3600) = fl64 (y / 3600)"
      by (simp add: fdiv_def round64_simps)
    then show ?thesis
      using fl64_nonneg_cases [of "y / 3600"] y(2) by auto
  qed
  then show ?thesis
  proof (elim disjE exE conjE)
    assume "fdiv (fl64 p) (Fin 3600) = PInf"
    then show ?thesis by (simp add: fsqrt_def round64_simps)
  next
    fix z assume z: "fdiv (fl64 p) (Fin 3600) = Fin z" "0 \<le> z"
    then have "fsqrt (fdiv (fl64 p) (Fin 3600)) = fl64 (sqrt z)"
      by (simp add: fsqrt_def round64_simps)
    then show ?thesis
      using fl64_nonneg_cases [of "sqrt z"] z(2) by auto
  qed
qed

lemma bsa64_underflow:
  assumes "0 \<le> p" and "p < 2 powi (- 1075)"
  shows "fsqrt (fdiv (fl64 p) (Fin 3600)) = Fin 0"
  using fl64_underflow [OF assms]
  by (simp add: fdiv_def fsqrt_def round64_simps fl64_zero)

lemma sqrt_ge_min: "0 \<le> z \<Longrightarrow> min z 1 \<le> sqrt z"
proof (cases "z \<le> 1")
  case True
  assume "0 \<le> z"
  then have "z\<^sup>2 \<le> z" using True by (simp add: power2_eq_square mult_left_le)
  then have "z \<le> sqrt z" by (rule real_le_rsqrt)
  then show ?thesis using True by simp
next
  case False
  then have "1 \<le> sqrt z" by simp
  then show ?thesis using False by simp
qed

lemma bsa64_pos:
  assumes "1 / 10 ^ 300 \<le> p"
  shows "jgt (fsqrt (fdiv (fl64 p) (Fin 3600))) (Fin 0)"
proof -
  define B :: real where "B = 1 / 10 ^ 300"
  define u :: real where "u = 2 powi (- 1074)"
  have tiny: "u \<le> B / 14400"
    by (simp add: u_def B_def power_int_minus field_simps)
  have u0: "0 < u" by (simp add: u_def)
  have u1: "u \<le> 1"
    using power_int_increasing [of "- 1074" 0 "2::real"] by (simp add: u_def)
  have Bp: "B \<le> p" using assms by (simp add: B_def)
  have p1: "u \<le> p" using tiny Bp u0 by linarith
  have q: "fdiv (fl64 p) (Fin 3600) = PInf
      \<or> (\<exists>z. fdiv (fl64 p) (Fin 3600) = Fin z \<and> B / 14400 \<le> z)"
    using fl64_ge_half [OF p1 [unfolded u_def]]
  proof (elim disjE exE conjE)
    assume "fl64 p = PInf"
    then show ?thesis by (simp add: fdiv_def round64_simps)
  next
    fix y assume y: "fl64 p = Fin y" "p / 2 \<le> y"
    then have e: "fdiv (fl64 p) (Fin 3600) = fl64 (y / 3600)"
      by (simp add: fdiv_def round64_simps)
    have lo: "B / 7200 \<le> y / 3600" using y(2) Bp by simp
    then have "u \<le> y / 3600" using tiny u0 by linarith
    from fl64_ge_half [OF this [unfolded u_def]] show ?thesis
      using lo e by auto
  qed
  then show ?thesis
  proof (elim disjE exE conjE)
    assume "fdiv (fl64 p) (Fin 3600) = PInf"
    then show ?thesis by (simp add: fsqrt_def round64_simps)
  next
    fix z assume z: "fdiv (fl64 p) (Fin 3600) = Fin z" "B / 14400 \<le> z"
    then have z0: "0 \<le> z" using tiny u0 by linarith
    have e: "fsqrt (fdiv (fl64 p) (Fin 3600)) = fl64 (sqrt z)"
      using z(1) z0 by (simp add: fsqrt_def round64_simps)
    have "u \<le> min z 1" using tiny z(2) u1 by simp
    then have s: "u \<le> sqrt z" using sqrt_ge_min [OF z0] by linarith
    then have sp: "0 < sqrt z" using u0 by linarith
    from fl64_ge_half [OF s [unfolded u_def]]
    consider "fl64 (sqrt z) = PInf" | y where "fl64 (sqrt z) = Fin y" "sqrt z / 2 \<le> y"
      by blast
    then show ?thesis
    proof cases
      case 1
      then show ?thesis by (simp add: e)
    next
      case 2
      from 2(2) sp have "0 < y" by linarith
      then show ?thesis by (simp add: e 2(1))
    qed
  qed
qed

lemma jgt_irrefl: "\<not> jgt x x"
  by (cases x) simp_all


lemma jle_zero_cases: "jle (Fin 0) x = (x = PInf \<or> (\<exists>a. x = Fin a \<and> 0 \<le> a))"
  by (cases x) simp_all

lemma jle_PInf: "x \<noteq> NaN \<Longrightarrow> jle x PInf"
  by (cases x) simp_all

lemma jle_fl64_nonneg: "0 \<le> a \<Longrightarrow> jle (Fin 0) (fl64 a)"
  using fl64_nonneg_cases [of a] by (auto simp add: jle_zero_cases)

text \<open>A rounded operation that is monotone on the reals is monotone on the numbers that
  are not negative, infinity included.\<close>

lemma lift_mono:
  assumes X: "jle (Fin 0) X" and XY: "jle X Y"
    and mono: "\<And>a b. 0 \<le> a \<Longrightarrow> a \<le> b \<Longrightarrow> f a \<le> f b"
    and nonneg: "\<And>a. 0 \<le> a \<Longrightarrow> 0 \<le> f a"
    and fin: "\<And>a. g (Fin a) = fl64 (f a)" and inf: "g PInf = PInf"
  shows "jle (Fin 0) (g X) \<and> jle (g X) (g Y)"
proof -
  consider (ff) a b where "X = Fin a" "Y = Fin b" "0 \<le> a" "a \<le> b"
    | (fi) a where "X = Fin a" "Y = PInf" "0 \<le> a" | (ii) "X = PInf" "Y = PInf"
    using X XY by (cases X; cases Y) simp_all
  then show ?thesis
  proof cases
    case ff
    then have "f a \<le> f b" "0 \<le> f a" by (simp_all add: mono nonneg)
    then show ?thesis
      using ff by (simp add: fin fl64_mono jle_fl64_nonneg)
  next
    case fi
    then show ?thesis
      by (simp add: fin inf jle_fl64_nonneg nonneg jle_PInf fl64_not_NaN)
  next
    case ii
    then show ?thesis by (simp add: inf)
  qed
qed

lemma fl64_013: "\<exists>c. fl64 0.13 = Fin c \<and> 0 < c \<and> c \<le> 1 / 2"
proof -
  have h: "fl64 (1 / 2) = Fin (1 / 2)"
    using fl64_pow2 [of "- 1"] by (simp add: power_int_minus)
  obtain c where c: "fl64 0.13 = Fin c" "0 \<le> c" "c \<le> 1 / 2"
    using fl64_le [of "0.13" "1 / 2"] h by auto
  have "(2::real) powi (- 1074) \<le> 0.13"
    by (simp add: power_int_minus field_simps)
  then have "0.13 / 2 \<le> c" using fl64_ge_half [of "0.13"] c(1) by simp
  then have "0 < c" by simp
  then show ?thesis using c by blast
qed

lemma fl64_013_norm: "\<exists>c. fl64 (13 / 100) = Fin c \<and> 0 < c \<and> c \<le> 1 / 2"
  using fl64_013 by simp

lemma fl64_one: "fl64 1 = Fin 1"
  using fl64_int [of 1] by simp

text \<open>The fever multiplier as a function of a finite temperature above 37.\<close>

lemma fever64_mono:
  assumes "37 < t" and "t \<le> t'"
  shows "jle (Fin 1) (fadd (Fin 1) (fmul (fsub (Fin t) (Fin 37)) (fl64 0.13)))
       \<and> jle (fadd (Fin 1) (fmul (fsub (Fin t) (Fin 37)) (fl64 0.13)))
              (fadd (Fin 1) (fmul (fsub (Fin t') (Fin 37)) (fl64 0.13)))"
proof -
  obtain c where c: "fl64 (13 / 100) = Fin c" "0 < c" using fl64_013_norm by blast
  define A where "A = fsub (Fin t) (Fin 37)"
  define A' where "A' = fsub (Fin t') (Fin 37)"
  define g1 where "g1 = (\<lambda>x. fmul x (Fin c))"
  define g2 where "g2 = (\<lambda>x. fadd (Fin 1) x)"
  have A: "A = fl64 (t - 37)" and A': "A' = fl64 (t' - 37)"
    by (simp_all add: A_def A'_def fsub_def jsub_def round64_simps)
  have a0: "jle (Fin 0) A" using assms(1) by (simp add: A jle_fl64_nonneg)
  have aa: "jle A A'" using assms(2) by (simp add: A A' fl64_mono)
  have s1: "jle (Fin 0) (g1 A) \<and> jle (g1 A) (g1 A')"
    using a0 aa
  proof (rule lift_mono [where f = "\<lambda>a. a * c"])
    show "\<And>a b. 0 \<le> a \<Longrightarrow> a \<le> b \<Longrightarrow> a * c \<le> b * c"
      using c(2) by (simp add: mult_right_mono)
    show "\<And>a. 0 \<le> a \<Longrightarrow> 0 \<le> a * c" using c(2) by simp
    show "\<And>a. g1 (Fin a) = fl64 (a * c)"
      by (simp add: g1_def fmul_def round64_simps)
    show "g1 PInf = PInf"
      using c(2) by (simp add: g1_def fmul_def round64_simps)
  qed
  have s2: "jle (Fin 0) (g2 (g1 A)) \<and> jle (g2 (g1 A)) (g2 (g1 A'))"
    using s1 [THEN conjunct1] s1 [THEN conjunct2]
  proof (rule lift_mono [where f = "\<lambda>b. 1 + b"])
    show "\<And>a b. 0 \<le> a \<Longrightarrow> a \<le> b \<Longrightarrow> 1 + a \<le> 1 + (b::real)" by simp
    show "\<And>a. 0 \<le> a \<Longrightarrow> 0 \<le> 1 + (a::real)" by simp
    show "\<And>a. g2 (Fin a) = fl64 (1 + a)"
      by (simp add: g2_def fadd_def round64_simps)
    show "g2 PInf = PInf"
      by (simp add: g2_def fadd_def round64_simps)
  qed
  have one: "jle (Fin 1) (g2 (g1 A))"
  proof -
    from s1 [THEN conjunct1] consider "g1 A = PInf" | b where "g1 A = Fin b" "0 \<le> b"
      by (auto simp add: jle_zero_cases)
    then show ?thesis
    proof cases
      case 1
      then show ?thesis by (simp add: g2_def fadd_def round64_simps)
    next
      case 2
      have "jle (fl64 1) (fl64 (1 + b))" using 2(2) by (intro fl64_mono) simp
      then show ?thesis
        by (simp add: 2(1) g2_def fadd_def round64_simps fl64_one)
    qed
  qed
  show ?thesis
    using one s2 [THEN conjunct2]
    by (simp add: g1_def g2_def A_def A'_def c(1))
qed













subsection \<open>The values of a number field\<close>

lemma validUnsigned_Fin:
  assumes "validUnsigned u"
  shows "\<exists>x. unsignedLiteral u = Fin x"
proof -
  have inf: "take 8 u \<noteq> ''Infinity''"
  proof
    assume a: "take 8 u = ''Infinity''"
    then obtain r where u: "u = CHR ''I'' # r" by (cases u) auto
    show False using assms by (simp add: u validUnsigned_def validExponent_def isDigit_def)
  qed
  define ip where "ip = takeWhile isDigit u"
  define r1 where "r1 = dropWhile isDigit u"
  have V: "case r1 of [] \<Rightarrow> ip \<noteq> []
      | c # r2 \<Rightarrow> if c = CHR ''.''
          then takeWhile isDigit r2 \<noteq> [] \<and> validExponent (dropWhile isDigit r2)
          else ip \<noteq> [] \<and> validExponent r1"
    using assms unfolding validUnsigned_def Let_def ip_def r1_def .
  have U: "unsignedLiteral u =
      (case r1 of
           [] \<Rightarrow> if ip = [] then NaN else Fin (real (digitsValue ip))
         | c # r2 \<Rightarrow>
             if c = CHR ''.'' then
               (let fp = takeWhile isDigit r2; r3 = dropWhile isDigit r2 in
                if ip = [] \<and> fp = [] then NaN
                else Fin ((real (digitsValue ip) + real (digitsValue fp) / 10 ^ length fp)
                          * exponentPart r3))
             else if ip = [] then NaN
             else Fin (real (digitsValue ip) * exponentPart r1))"
    unfolding unsignedLiteral_def Let_def ip_def r1_def by (simp only: inf if_False)
  show ?thesis
    unfolding U using V by (cases r1) (auto simp add: Let_def split: if_splits)
qed

lemma validUnsigned_head:
  assumes "validUnsigned (c # r)"
  shows "\<not> isWhiteSpace c" and "c \<noteq> CHR ''+''"
proof -
  have d: "isDigit c \<or> c = CHR ''.''"
    using assms
    by (cases "isDigit c") (auto simp add: validUnsigned_def Let_def split: if_splits)
  show "\<not> isWhiteSpace c" using d by (auto simp add: isWhiteSpace_def isDigit_def)
  show "c \<noteq> CHR ''+''" using d by (auto simp add: isDigit_def)
qed

text \<open>The value of a number field that is not empty parses to a finite number.\<close>

lemma valid_parseFloat_Fin:
  assumes "validFloatingPointNumber s"
  shows "\<exists>x. parseFloat s = Fin x"
proof -
  obtain c r where s: "s = c # r"
    using assms by (cases s) (simp_all add: validFloatingPointNumber_def)
  show ?thesis
  proof (cases "c = CHR ''-''")
    case True
    then have "validUnsigned r" using assms by (simp add: s validFloatingPointNumber_def)
    then obtain x where "unsignedLiteral r = Fin x" using validUnsigned_Fin by blast
    then show ?thesis
      using True by (simp add: s parseFloat_def isWhiteSpace_def)
  next
    case False
    then have v: "validUnsigned (c # r)"
      using assms by (simp add: s validFloatingPointNumber_def)
    then obtain x where "unsignedLiteral (c # r) = Fin x" using validUnsigned_Fin by blast
    then show ?thesis
      using False validUnsigned_head [OF v] by (simp add: s parseFloat_def)
  qed
qed

lemma numberInputValue_NaN:
  assumes "numberInputValue s"
  shows "(parseFloat s = NaN) = (s = [])" and "(parseFloat64 s = NaN) = (s = [])"
proof -
  show "(parseFloat s = NaN) = (s = [])"
    using assms valid_parseFloat_Fin [of s]
    by (auto simp add: numberInputValue_def parseFloat_Nil)
  then show "(parseFloat64 s = NaN) = (s = [])"
    by (simp add: parseFloat64_def round64_NaN_iff)
qed

lemmas input_defs = numberInputValue_def validFloatingPointNumber_def validUnsigned_def
  validExponent_def isDigit_def

subsection \<open>The claims\<close>



text \<open>
  C2. The claim that the body surface area is strictly positive for every positive height
  and weight does not hold of the binary64 numbers the code computes with: for a height
  of \<^verbatim>\<open>"1e-200"\<close> and a weight of \<^verbatim>\<open>"1e-200"\<close>, both read as positive finite numbers, the
  product underflows to zero, the surface area is \<open>0\<close> and is shown as \<^verbatim>\<open>"0.000"\<close>.
\<close>

theorem bsa_underflow_counterexample:
  "jgt (heightCm (calcLocals64 ''1e-200'' ''1e-200'' ''37'' [] noFactors)) (Fin 0)
   \<and> heightCm (calcLocals64 ''1e-200'' ''1e-200'' ''37'' [] noFactors) \<noteq> PInf
   \<and> jgt (weightKg (calcLocals64 ''1e-200'' ''1e-200'' ''37'' [] noFactors)) (Fin 0)
   \<and> weightKg (calcLocals64 ''1e-200'' ''1e-200'' ''37'' [] noFactors) \<noteq> PInf
   \<and> bsa (calcLocals64 ''1e-200'' ''1e-200'' ''37'' [] noFactors) = Fin 0
   \<and> \<not> jgt (bsa (calcLocals64 ''1e-200'' ''1e-200'' ''37'' [] noFactors)) (Fin 0)
   \<and> map_option res_bsa (calculateResults64 ''1e-200'' ''1e-200'' ''37'' [] noFactors)
       = Some (Dec False 0 3)"
proof -
  let ?c = "calcLocals64 ''1e-200'' ''1e-200'' ''37'' [] noFactors"
  define x :: real where "x = 1 / 10 ^ 200"
  define t :: real where "t = 2 powi (- 664)"
  have p: "parseFloat ''1e-200'' = Fin x"
    by (simp add: pf_defs x_def)
  have xt: "x \<le> t"
    by (simp add: x_def t_def power_int_minus field_simps)
  have x0: "0 \<le> x" by (simp add: x_def)
  have xu: "2 powi (- 1074) \<le> x"
    by (simp add: x_def power_int_minus field_simps)
  have ft: "fl64 t = Fin t"
    unfolding t_def by (rule fl64_pow2) simp_all
  obtain d where d: "fl64 x = Fin d" "0 \<le> d" "d \<le> t"
    using fl64_le [OF x0 xt ft] by blast
  have "x / 2 \<le> d" using fl64_ge_half [OF xu] d(1) by simp
  moreover have "0 < x" by (simp add: x_def)
  ultimately have dp: "0 < d" by linarith
  have pd: "parseFloat64 ''1e-200'' = Fin d"
    by (simp add: parseFloat64_def p round64_simps d(1))
  have "d * d \<le> t * t" using d(2,3) by (intro mult_mono) simp_all
  also have "t * t = 2 powi (- 1328)"
    by (simp add: t_def flip: power_int_add)
  also have "\<dots> < 2 powi (- 1075)"
    by (intro power_int_strict_increasing) simp_all
  finally have small: "d * d < 2 powi (- 1075)" .
  have b: "bsa ?c = Fin 0"
    using bsa64_underflow [OF _ small] dp
    by (simp add: calcLocals64_bsa pd fmul_def round64_simps)
  have r: "calculateResults64 ''1e-200'' ''1e-200'' ''37'' [] noFactors
      = Some (makeResults64 ?c)"
    by (simp add: calculateResults64_def)
  show ?thesis
    using dp by (simp add: calcLocals64_inputs pd b r makeResults64_def toFixed_def)
qed

text \<open>
  C2, as the code has it. For a positive finite height and weight the body surface area
  is \<open>sqrt (height * weight / 3600)\<close> with each of the three operations rounded to
  binary64. It is never negative and never \<open>NaN\<close>; it is strictly positive when the product
  of height and weight is at least \<open>10^(-300)\<close>, and it is zero when that product is below
  \<open>2^(-1075)\<close>. The result shows it through \<open>toFixed(3)\<close>.
\<close>

theorem bsa_mosteller64:
  assumes "parseFloat64 H = Fin h" and "parseFloat64 W = Fin w" and "0 < h" and "0 < w"
  shows "(let c = calcLocals64 H W T R F in
      bsa c = fsqrt (fdiv (fmul (Fin h) (Fin w)) (Fin 3600))
    \<and> jle (Fin 0) (bsa c)
    \<and> (1 / 10 ^ 300 \<le> h * w \<longrightarrow> jgt (bsa c) (Fin 0))
    \<and> (h * w < 2 powi (- 1075) \<longrightarrow> bsa c = Fin 0)
    \<and> (\<exists>r. calculateResults64 H W T R F = Some r \<and> res_bsa r = toFixed (bsa c) 3))"
proof -
  let ?c = "calcLocals64 H W T R F"
  have hw: "0 \<le> h * w" using assms by simp
  have b: "bsa ?c = fsqrt (fdiv (fl64 (h * w)) (Fin 3600))"
    using assms by (simp add: calcLocals64_bsa fmul_def round64_simps)
  have b': "bsa ?c = fsqrt (fdiv (fmul (Fin h) (Fin w)) (Fin 3600))"
    by (simp add: b fmul_def round64_simps)
  have nn: "jle (Fin 0) (bsa ?c)"
    unfolding b using hw by (rule bsa64_nonneg)
  have ps: "1 / 10 ^ 300 \<le> h * w \<longrightarrow> jgt (bsa ?c) (Fin 0)"
    unfolding b by (auto intro: bsa64_pos)
  have un: "h * w < 2 powi (- 1075) \<longrightarrow> bsa ?c = Fin 0"
    unfolding b using hw by (auto intro: bsa64_underflow)
  have ne: "H \<noteq> []" "W \<noteq> []"
    using assms by (auto dest: parseFloat64_Fin_nonempty)
  have "calculateResults64 H W T R F = Some (makeResults64 ?c)"
    using ne by (rule calculateResults64_Some)
  moreover have "res_bsa (makeResults64 ?c) = toFixed (bsa ?c) 3"
    by (simp add: makeResults64_def)
  ultimately have r: "\<exists>r. calculateResults64 H W T R F = Some r \<and> res_bsa r = toFixed (bsa ?c) 3"
    by simp
  show ?thesis
    unfolding Let_def using b' nn ps un r by blast
qed

theorem bsa_mosteller64_witness:
  "parseFloat64 ''100'' = Fin 100 \<and> parseFloat64 ''9'' = Fin 9
   \<and> (0::real) < 100 \<and> (0::real) < 9 \<and> 1 / 10 ^ 300 \<le> (100::real) * 9
   \<and> bsa (calcLocals64 ''100'' ''9'' ''37'' [] noFactors) = Fin (1 / 2)
   \<and> jgt (bsa (calcLocals64 ''100'' ''9'' ''37'' [] noFactors)) (Fin 0)
   \<and> (\<exists>r. calculateResults64 ''100'' ''9'' ''37'' [] noFactors = Some r
          \<and> res_bsa r = Dec False 500 3)"
proof -
  have p: "parseFloat64 ''100'' = Fin 100" "parseFloat64 ''9'' = Fin 9"
    by (simp_all add: parseFloat64_def pf_defs round64_simps fl64_num)
  have q: "(0::real) < 100" "(0::real) < 9" by simp_all
  have big: "1 / 10 ^ 300 \<le> (100::real) * 9" by simp
  have f1: "fl64 (1 / 4) = Fin (1 / 4)"
    using fl64_pow2 [of "- 2"] by (simp add: power_int_minus)
  have f2: "fl64 (1 / 2) = Fin (1 / 2)"
    using fl64_pow2 [of "- 1"] by (simp add: power_int_minus)
  have s: "sqrt (1 / 4) = 1 / 2"
    by (simp add: real_sqrt_divide)
  have v: "fsqrt (fdiv (fmul (Fin 100) (Fin 9)) (Fin 3600)) = Fin (1 / 2)"
    by (simp add: fmul_def fdiv_def fsqrt_def round64_simps fl64_num f1 f2 s)
  note a = bsa_mosteller64 [OF p q, of "''37''" "[]" noFactors, unfolded Let_def]
  have b: "bsa (calcLocals64 ''100'' ''9'' ''37'' [] noFactors) = Fin (1 / 2)"
    using a [THEN conjunct1] by (simp only: v)
  have g: "jgt (bsa (calcLocals64 ''100'' ''9'' ''37'' [] noFactors)) (Fin 0)"
    using a [THEN conjunct2, THEN conjunct2, THEN conjunct1] big by blast
  have r: "\<exists>r. calculateResults64 ''100'' ''9'' ''37'' [] noFactors = Some r
          \<and> res_bsa r = Dec False 500 3"
    using a [THEN conjunct2, THEN conjunct2, THEN conjunct2, THEN conjunct2]
    by (simp add: b toFixed_def)
  show ?thesis
    using p q big b g r by (intro conjI)
qed

text \<open>
  C3. The claim that the fever multiplier is strictly increasing in the temperature above
  37 does not hold of the binary64 numbers the code computes with: the temperatures
  \<^verbatim>\<open>"1e16"\<close> and \<^verbatim>\<open>"10000000000000002"\<close> are two different numbers above 37, and
  subtracting 37 leaves \<open>9999999999999964\<close> for both (the exact differences lie halfway
  between two binary64 values), so that the multiplier is the same for both.
\<close>

theorem fever_rounding_counterexample:
  "temp (calcLocals64 ''100'' ''9'' ''1e16'' [] noFactors) = Fin 10000000000000000
   \<and> temp (calcLocals64 ''100'' ''9'' ''10000000000000002'' [] noFactors)
       = Fin 10000000000000002
   \<and> jgt (temp (calcLocals64 ''100'' ''9'' ''1e16'' [] noFactors)) (Fin 37)
   \<and> jgt (temp (calcLocals64 ''100'' ''9'' ''10000000000000002'' [] noFactors))
         (temp (calcLocals64 ''100'' ''9'' ''1e16'' [] noFactors))
   \<and> feverMultiplier (calcLocals64 ''100'' ''9'' ''10000000000000002'' [] noFactors)
       = feverMultiplier (calcLocals64 ''100'' ''9'' ''1e16'' [] noFactors)
   \<and> \<not> jgt (feverMultiplier (calcLocals64 ''100'' ''9'' ''10000000000000002'' [] noFactors))
           (feverMultiplier (calcLocals64 ''100'' ''9'' ''1e16'' [] noFactors))"
proof -
  have e1: "fl64 10000000000000000 = Fin 10000000000000000"
    using fl64_exact [of 5000000000000000 1] by simp
  have e2: "fl64 10000000000000002 = Fin 10000000000000002"
    using fl64_exact [of 5000000000000001 1] by simp
  have p1: "parseFloat64 ''1e16'' = Fin 10000000000000000"
    by (simp add: parseFloat64_def pf_defs round64_simps e1)
  have p2: "parseFloat64 ''10000000000000002'' = Fin 10000000000000002"
    by (simp add: parseFloat64_def pf_defs round64_simps e2)
  have s1: "fsub (Fin 10000000000000000) (Fin 37) = Fin 9999999999999964"
    by (simp add: fsub_def jsub_def round64_simps fl64_tie_up)
  have s2: "fsub (Fin 10000000000000002) (Fin 37) = Fin 9999999999999964"
    by (simp add: fsub_def jsub_def round64_simps fl64_tie_down)
  have m: "feverMultiplier (calcLocals64 ''100'' ''9'' ''10000000000000002'' [] noFactors)
       = feverMultiplier (calcLocals64 ''100'' ''9'' ''1e16'' [] noFactors)"
    by (simp add: calcLocals64_fever p1 p2 s1 s2)
  show ?thesis
    unfolding m by (simp add: calcLocals64_inputs p1 p2 jgt_irrefl)
qed

text \<open>
  C3, as the code has it. The fever adjustment is \<open>(temperature - 37) * 0.13\<close> above 37,
  each operation rounded to binary64, and \<open>0\<close> otherwise (also for a temperature that does
  not parse); the multiplier is \<open>1 +\<close> the adjustment, so it is \<open>1\<close> up to 37, never below
  \<open>1\<close>, and above 37 it does not decrease when the temperature increases. It multiplies
  the base range in the adjusted range; the weight-based range is the weight times 15 and
  20, and is the same, in the locals and in the result, for every temperature.
\<close>

theorem fever_adjustment64:
  "(let c = calcLocals64 H W T R F; c' = calcLocals64 H W T' R F in
     feverAdjustment c =
       (case parseFloat64 T of
          Fin t \<Rightarrow> if 37 < t then fmul (fsub (Fin t) (Fin 37)) (fl64 0.13) else Fin 0
        | PInf \<Rightarrow> PInf
        | _ \<Rightarrow> Fin 0)
   \<and> feverMultiplier c = fadd (Fin 1) (feverAdjustment c)
   \<and> (\<forall>t. parseFloat64 T = Fin t \<and> t \<le> 37 \<longrightarrow> feverMultiplier c = Fin 1)
   \<and> (parseFloat64 T = NaN \<longrightarrow> feverMultiplier c = Fin 1)
   \<and> (\<forall>t t'. parseFloat64 T = Fin t \<and> parseFloat64 T' = Fin t' \<and> 37 < t \<and> t < t' \<longrightarrow>
         jle (feverMultiplier c) (feverMultiplier c'))
   \<and> jle (Fin 1) (feverMultiplier c)
   \<and> adjustedIWL_low c =
        fadd (fadd (fmul (baseIWL_low c) (feverMultiplier c)) (rrAdjustment c))
          (additionalAdjustment c)
   \<and> adjustedIWL_high c =
        fadd (fadd (fmul (baseIWL_high c) (feverMultiplier c)) (rrAdjustment c))
          (additionalAdjustment c)
   \<and> weightBasedIWL_low c = fmul (weightKg c) (Fin 15)
   \<and> weightBasedIWL_high c = fmul (weightKg c) (Fin 20)
   \<and> weightBasedIWL_low c' = weightBasedIWL_low c
   \<and> weightBasedIWL_high c' = weightBasedIWL_high c
   \<and> map_option res_weightBasedIWL_low (calculateResults64 H W T' R F)
        = map_option res_weightBasedIWL_low (calculateResults64 H W T R F)
   \<and> map_option res_weightBasedIWL_high (calculateResults64 H W T' R F)
        = map_option res_weightBasedIWL_high (calculateResults64 H W T R F))"
proof -
  let ?c = "calcLocals64 H W T R F" and ?c' = "calcLocals64 H W T' R F"
  obtain k where k: "fl64 (13 / 100) = Fin k" "0 < k" using fl64_013_norm by blast
  have fa: "feverAdjustment ?c =
       (case parseFloat64 T of
          Fin t \<Rightarrow> if 37 < t then fmul (fsub (Fin t) (Fin 37)) (fl64 0.13) else Fin 0
        | PInf \<Rightarrow> PInf
        | _ \<Rightarrow> Fin 0)"
    using k(2)
    by (cases "parseFloat64 T")
      (simp_all add: calcLocals64_fever k(1) fsub_def fmul_def jsub_def round64_simps)
  have fm: "feverMultiplier ?c = fadd (Fin 1) (feverAdjustment ?c)"
    by (rule calcLocals64_fever)
  have one: "\<forall>t. parseFloat64 T = Fin t \<and> t \<le> 37 \<longrightarrow> feverMultiplier ?c = Fin 1"
    "parseFloat64 T = NaN \<longrightarrow> feverMultiplier ?c = Fin 1"
    by (auto simp add: calcLocals64_fever fadd_def round64_simps fl64_one)
  have inc: "\<forall>t t'. parseFloat64 T = Fin t \<and> parseFloat64 T' = Fin t' \<and> 37 < t \<and> t < t' \<longrightarrow>
         jle (feverMultiplier ?c) (feverMultiplier ?c')"
  proof (intro allI impI, elim conjE)
    fix t t' assume a: "parseFloat64 T = Fin t" "parseFloat64 T' = Fin t'" "37 < t" "t < t'"
    then have "37 < t'" "t \<le> t'" by simp_all
    then show "jle (feverMultiplier ?c) (feverMultiplier ?c')"
      using fever64_mono [of t t'] a by (simp add: calcLocals64_fever)
  qed
  have ge: "jle (Fin 1) (feverMultiplier ?c)"
  proof (cases "parseFloat64 T")
    case (Fin t)
    show ?thesis
    proof (cases "37 < t")
      case True
      then show ?thesis
        using fever64_mono [of t t] Fin by (simp add: calcLocals64_fever)
    next
      case False
      then show ?thesis
        using Fin by (simp add: calcLocals64_fever fadd_def round64_simps fl64_one)
    qed
  next
    case PInf
    then show ?thesis
      using fa by (simp add: fm fadd_def round64_simps)
  qed (simp_all add: calcLocals64_fever fadd_def round64_simps fl64_one)
  have wb: "map_option res_weightBasedIWL_low (calculateResults64 H W T' R F)
        = map_option res_weightBasedIWL_low (calculateResults64 H W T R F)"
    "map_option res_weightBasedIWL_high (calculateResults64 H W T' R F)
        = map_option res_weightBasedIWL_high (calculateResults64 H W T R F)"
    by (simp_all add: calculateResults64_def makeResults64_def calcLocals64_weightBased)
  have wl: "weightBasedIWL_low ?c = fmul (weightKg ?c) (Fin 15)"
    "weightBasedIWL_high ?c = fmul (weightKg ?c) (Fin 20)"
    "weightBasedIWL_low ?c' = weightBasedIWL_low ?c"
    "weightBasedIWL_high ?c' = weightBasedIWL_high ?c"
    by (simp_all add: calcLocals64_weightBased calcLocals64_inputs)
  note ad = calcLocals64_adjusted [of H W T R F]
  show ?thesis
    unfolding Let_def using fa fm one inc ge ad wl wb by blast
qed

theorem fever_adjustment64_witness:
  "parseFloat64 ''39'' = Fin 39 \<and> parseFloat64 ''40'' = Fin 40 \<and> (37::real) < 39
   \<and> (39::real) < 40 \<and> parseFloat64 ''36'' = Fin 36 \<and> (36::real) \<le> 37
   \<and> parseFloat64 [] = NaN
   \<and> jle (feverMultiplier (calcLocals64 ''100'' ''9'' ''39'' [] noFactors))
         (feverMultiplier (calcLocals64 ''100'' ''9'' ''40'' [] noFactors))
   \<and> feverMultiplier (calcLocals64 ''100'' ''9'' ''36'' [] noFactors) = Fin 1
   \<and> feverMultiplier (calcLocals64 ''100'' ''9'' [] [] noFactors) = Fin 1"
proof -
  have p: "parseFloat64 ''39'' = Fin 39" "parseFloat64 ''40'' = Fin 40"
    "parseFloat64 ''36'' = Fin 36"
    by (simp_all add: parseFloat64_def pf_defs round64_simps fl64_num)
  have n: "parseFloat64 [] = NaN"
    by (simp add: parseFloat64_def parseFloat_Nil round64_simps)
  have q: "(37::real) < 39" "(39::real) < 40" "(36::real) \<le> 37" by simp_all
  note a = fever_adjustment64 [of "''100''" "''9''" "''39''" "[]" noFactors "''40''",
      unfolded Let_def]
  note b = fever_adjustment64 [of "''100''" "''9''" "''36''" "[]" noFactors "''36''",
      unfolded Let_def]
  note c = fever_adjustment64 [of "''100''" "''9''" "[]" "[]" noFactors "[]",
      unfolded Let_def]
  have i: "jle (feverMultiplier (calcLocals64 ''100'' ''9'' ''39'' [] noFactors))
         (feverMultiplier (calcLocals64 ''100'' ''9'' ''40'' [] noFactors))"
    using a [THEN conjunct2, THEN conjunct2, THEN conjunct2, THEN conjunct2, THEN conjunct1]
      p(1,2) q(1,2) by blast
  have l: "feverMultiplier (calcLocals64 ''100'' ''9'' ''36'' [] noFactors) = Fin 1"
    using b [THEN conjunct2, THEN conjunct2, THEN conjunct1] p(3) q(3) by blast
  have e: "feverMultiplier (calcLocals64 ''100'' ''9'' [] [] noFactors) = Fin 1"
    using c [THEN conjunct2, THEN conjunct2, THEN conjunct2, THEN conjunct1] n by blast
  show ?thesis
    using p n q i l e by (intro conjI)
qed



text \<open>
  C5. On every finite weight \<^verbatim>\<open>getNormalRR\<close> is the first match in the specification's
  table of ascending exclusive upper bounds 3, 5, 8, 12 and 20, with the last band for
  the rest: each weight has one band, the one of the interval it lies in.
\<close>

theorem getNormalRR_first_match:
  "getNormalRR (Fin w) = spec_firstMatch spec_bandTable spec_lastBand w
   \<and> sorted_wrt (<) (map fst spec_bandTable)
   \<and> distinct (map snd spec_bandTable @ [spec_lastBand])
   \<and> (w < 3 \<longrightarrow> getNormalRR (Fin w) = \<lparr>min_rr = 30, max_rr = 60, age = ''Newborn''\<rparr>)
   \<and> (3 \<le> w \<and> w < 5 \<longrightarrow>
        getNormalRR (Fin w) = \<lparr>min_rr = 30, max_rr = 50, age = ''0-3 months''\<rparr>)
   \<and> (5 \<le> w \<and> w < 8 \<longrightarrow>
        getNormalRR (Fin w) = \<lparr>min_rr = 25, max_rr = 40, age = ''3-6 months''\<rparr>)
   \<and> (8 \<le> w \<and> w < 12 \<longrightarrow>
        getNormalRR (Fin w) = \<lparr>min_rr = 20, max_rr = 35, age = ''6-12 months''\<rparr>)
   \<and> (12 \<le> w \<and> w < 20 \<longrightarrow>
        getNormalRR (Fin w) = \<lparr>min_rr = 20, max_rr = 30, age = ''1-3 years''\<rparr>)
   \<and> (20 \<le> w \<longrightarrow> getNormalRR (Fin w) = \<lparr>min_rr = 15, max_rr = 25, age = ''3+ years''\<rparr>)"
  by (simp add: getNormalRR_def jlt_def spec_bandTable_def spec_lastBand_def)

theorem getNormalRR_first_match_witness:
  "(3::real) \<le> 4 \<and> (4::real) < 5
   \<and> getNormalRR (Fin 4) = \<lparr>min_rr = 30, max_rr = 50, age = ''0-3 months''\<rparr>
   \<and> (0::real) < 3
   \<and> getNormalRR (Fin 0) = \<lparr>min_rr = 30, max_rr = 60, age = ''Newborn''\<rparr>
   \<and> (20::real) \<le> 20
   \<and> getNormalRR (Fin 20) = \<lparr>min_rr = 15, max_rr = 25, age = ''3+ years''\<rparr>"
  using getNormalRR_first_match [of 4] getNormalRR_first_match [of 0]
    getNormalRR_first_match [of 20]
  by (simp add: spec_bandTable_def spec_lastBand_def)



text \<open>
  C7. The state holds the value of a number field for the height and for the weight. For
  such values the calculation gives no result exactly when the height or the weight is
  absent or not a number, that is when \<^verbatim>\<open>parseFloat\<close> makes \<open>NaN\<close> of it, and this is
  exactly when its string is empty, the test of line 29; the temperature, the rate and
  the flags play no part. Nothing raises: the function is total, and no result is the
  value \<open>None\<close>. This holds in exact and in binary64 arithmetic.
\<close>

theorem guard_withholds:
  assumes "numberInputValue H" and "numberInputValue W"
  shows "(calculateResults H W T R F = None) = (parseFloat H = NaN \<or> parseFloat W = NaN)
     \<and> (calculateResults64 H W T R F = None) = (parseFloat64 H = NaN \<or> parseFloat64 W = NaN)
     \<and> (parseFloat H = NaN) = (H = []) \<and> (parseFloat W = NaN) = (W = [])
     \<and> (parseFloat64 H = NaN) = (H = []) \<and> (parseFloat64 W = NaN) = (W = [])"
  using numberInputValue_NaN [OF assms(1)] numberInputValue_NaN [OF assms(2)]
  by (simp add: calculateResults_def calculateResults64_def)

theorem guard_withholds_witness:
  "numberInputValue [] \<and> numberInputValue ''10'' \<and> numberInputValue ''77.5''
   \<and> parseFloat [] = NaN \<and> parseFloat64 [] = NaN
   \<and> calculateResults [] ''10'' ''39'' ''55'' (noFactors\<lparr>burns := True\<rparr>) = None
   \<and> calculateResults ''77.5'' [] ''39'' ''55'' (noFactors\<lparr>burns := True\<rparr>) = None
   \<and> calculateResults ''77.5'' ''10'' ''39'' ''55'' (noFactors\<lparr>burns := True\<rparr>) \<noteq> None
   \<and> calculateResults64 [] ''10'' ''39'' ''55'' (noFactors\<lparr>burns := True\<rparr>) = None
   \<and> calculateResults64 ''77.5'' [] ''39'' ''55'' (noFactors\<lparr>burns := True\<rparr>) = None
   \<and> calculateResults64 ''77.5'' ''10'' ''39'' ''55'' (noFactors\<lparr>burns := True\<rparr>) \<noteq> None"
proof -
  have v: "numberInputValue []" "numberInputValue ''10''" "numberInputValue ''77.5''"
    by (simp_all add: input_defs)
  note a = guard_withholds [OF v(1) v(2), of "''39''" "''55''" "noFactors\<lparr>burns := True\<rparr>"]
  note b = guard_withholds [OF v(3) v(1), of "''39''" "''55''" "noFactors\<lparr>burns := True\<rparr>"]
  note c = guard_withholds [OF v(3) v(2), of "''39''" "''55''" "noFactors\<lparr>burns := True\<rparr>"]
  have n: "parseFloat [] = NaN" "parseFloat64 [] = NaN"
    using a by simp_all
  have a1: "calculateResults [] ''10'' ''39'' ''55'' (noFactors\<lparr>burns := True\<rparr>) = None"
    "calculateResults64 [] ''10'' ''39'' ''55'' (noFactors\<lparr>burns := True\<rparr>) = None"
    using a by simp_all
  have b1: "calculateResults ''77.5'' [] ''39'' ''55'' (noFactors\<lparr>burns := True\<rparr>) = None"
    "calculateResults64 ''77.5'' [] ''39'' ''55'' (noFactors\<lparr>burns := True\<rparr>) = None"
    using b by simp_all
  have c1: "calculateResults ''77.5'' ''10'' ''39'' ''55'' (noFactors\<lparr>burns := True\<rparr>) \<noteq> None"
    "calculateResults64 ''77.5'' ''10'' ''39'' ''55'' (noFactors\<lparr>burns := True\<rparr>) \<noteq> None"
    using c by simp_all
  show ?thesis
    using v n a1 b1 c1 by (intro conjI)
qed









end
